theory Spec2Isabelle
  imports Main "HOL-Library.Word" "HOL-Library.Sublist"
begin

section \<open>Values of the program\<close>

text \<open>
  The program is two Python modules: \<^verbatim>\<open>core/visual_rendering.py\<close> (the resizer, the image
  renderer, the PDF page pipeline) and \<^verbatim>\<open>system/local_tools.py\<close> (the dispatcher
  \<^verbatim>\<open>get_local_file_visual\<close>). Everything they compute themselves is embedded below; what
  they obtain from PIL, pdf2image, weasyprint, the file system and the logger is a field
  of the record \<open>env\<close>, and every call of such a capability is appended to a trace.
\<close>

type_synonym bytes = "8 word list"

text \<open>A decoded PIL image: its \<^verbatim>\<open>size\<close> and its pixel content, which the program never reads.\<close>

record bitmap =
  width :: nat
  height :: nat
  pixels :: bytes

text \<open>
  A raised Python exception with the text \<^verbatim>\<open>str(e)\<close> gives. The program tells
  \<^verbatim>\<open>ImportError\<close> apart (in \<^verbatim>\<open>convert_html_to_pdf\<close>) and raises \<^verbatim>\<open>RuntimeError\<close> itself;
  every other subclass of \<^verbatim>\<open>Exception\<close> is \<open>OtherError\<close>.
\<close>

datatype exn = ImportError string | RuntimeError string | OtherError string

fun str_exn :: "exn \<Rightarrow> string" where
  "str_exn (ImportError m) = m"
| "str_exn (RuntimeError m) = m"
| "str_exn (OtherError m) = m"

text \<open>\<^verbatim>\<open>Union[bytes, str]\<close>: the argument of both renderers.\<close>

datatype render_input = Bytes bytes | Path string

text \<open>
  \<^verbatim>\<open>Image(data=..., format=...)\<close> of fastmcp, and the elements of a result list: the
  envelope \<^verbatim>\<open>to_image_content()\<close> wraps around such an image, or a plain string.
\<close>

datatype image = Image (data: bytes) (format: string)

datatype content = ImageContent image | Text string

definition to_image_content :: "image \<Rightarrow> content" where
  "to_image_content img = ImageContent img"

text \<open>The keyword arguments \<^verbatim>\<open>common_args\<close> that reach pdf2image; a key may be absent.\<close>

record pdf_args =
  kw_fmt :: string
  kw_first_page :: "int option"
  kw_last_page :: "int option"

text \<open>The dictionary \<^verbatim>\<open>pdfinfo_from_path\<close> returns: integers and strings under string keys.\<close>

datatype py_value = IntVal int | StrVal string

type_synonym pdf_info = "string \<Rightarrow> py_value option"

definition dict_get :: "pdf_info \<Rightarrow> string \<Rightarrow> py_value \<Rightarrow> py_value" where
  "dict_get d k dflt = (case d k of None \<Rightarrow> dflt | Some v \<Rightarrow> v)"

section \<open>Capabilities and the trace of their calls\<close>

datatype call =
    PilOpenPath string
  | PilOpenBytes bytes
  | PilThumbnail bitmap "int \<times> int"
  | PilSave bitmap string
  | PdfinfoFromPath string
  | PdfinfoFromBytes bytes
  | ConvertFromPath string pdf_args
  | ConvertFromBytes bytes pdf_args
  | OpenRead string
  | ImportWeasyprint
  | WritePdf string
  | LoggerError string

record env =
  os_path_exists :: "string \<Rightarrow> bool"
  os_path_isfile :: "string \<Rightarrow> bool"
  guess_type :: "string \<Rightarrow> exn + string option"
  open_read :: "string \<Rightarrow> exn + string"
  pil_open_path :: "string \<Rightarrow> exn + bitmap"
  pil_open_bytes :: "bytes \<Rightarrow> exn + bitmap"
  pil_thumbnail :: "bitmap \<Rightarrow> int \<times> int \<Rightarrow> exn + bitmap"
  pil_save :: "bitmap \<Rightarrow> string \<Rightarrow> exn + bytes"
  pdfinfo_from_path :: "string \<Rightarrow> exn + pdf_info"
  pdfinfo_from_bytes :: "bytes \<Rightarrow> exn + pdf_info"
  convert_from_path :: "string \<Rightarrow> pdf_args \<Rightarrow> exn + bitmap list"
  convert_from_bytes :: "bytes \<Rightarrow> pdf_args \<Rightarrow> exn + bitmap list"
  import_weasyprint :: "exn option"
  write_pdf :: "string \<Rightarrow> exn + bytes"
  int_of_str :: "string \<Rightarrow> exn + int"
  unicode_upper :: "string \<Rightarrow> string"
  unicode_lower :: "string \<Rightarrow> string"

text \<open>
  A computation takes the trace so far and returns its outcome (\<open>Inl\<close> a raised
  exception, \<open>Inr\<close> a value) with the trace extended by the calls it made.
\<close>

type_synonym 'a io = "call list \<Rightarrow> (exn + 'a) \<times> call list"

definition ret :: "'a \<Rightarrow> 'a io" where
  "ret x = (\<lambda>t. (Inr x, t))"

definition raise :: "exn \<Rightarrow> 'a io" where
  "raise e = (\<lambda>t. (Inl e, t))"

definition bind :: "'a io \<Rightarrow> ('a \<Rightarrow> 'b io) \<Rightarrow> 'b io" where
  "bind m f = (\<lambda>t. case m t of (Inl e, t') \<Rightarrow> (Inl e, t') | (Inr x, t') \<Rightarrow> f x t')"

text \<open>\<^verbatim>\<open>try: m  except Exception as e: h e\<close>\<close>

definition try_except :: "'a io \<Rightarrow> (exn \<Rightarrow> 'a io) \<Rightarrow> 'a io" where
  "try_except m h = (\<lambda>t. case m t of (Inl e, t') \<Rightarrow> h e t' | (Inr x, t') \<Rightarrow> (Inr x, t'))"

text \<open>One call of a capability: it is recorded, and its outcome is the computation's.\<close>

definition invoke :: "call \<Rightarrow> exn + 'a \<Rightarrow> 'a io" where
  "invoke c r = (\<lambda>t. (r, t @ [c]))"

definition logger_error :: "string \<Rightarrow> unit io" where
  "logger_error m = invoke (LoggerError m) (Inr ())"

section \<open>Python built-ins the program uses\<close>

text \<open>
  A Python \<^verbatim>\<open>str\<close> is modelled by its UTF-8 bytes: equality, concatenation, and splitting
  at an ASCII character are the same on both. \<^verbatim>\<open>str.upper\<close> and \<^verbatim>\<open>str.lower\<close> map the
  letters of an ASCII string as below; on any other string they follow the Unicode case
  mapping of the runtime (\<open>unicode_upper\<close>, \<open>unicode_lower\<close>), which can change other
  characters and the length.
\<close>

definition upper_char :: "char \<Rightarrow> char" where
  "upper_char c = (let n = of_char c :: nat in if 97 \<le> n \<and> n \<le> 122 then char_of (n - 32) else c)"

definition lower_char :: "char \<Rightarrow> char" where
  "lower_char c = (let n = of_char c :: nat in if 65 \<le> n \<and> n \<le> 90 then char_of (n + 32) else c)"

definition is_ascii :: "string \<Rightarrow> bool" where
  "is_ascii s = list_all (\<lambda>c. (of_char c :: nat) < 128) s"

definition upper :: "env \<Rightarrow> string \<Rightarrow> string" where
  "upper env s = (if is_ascii s then map upper_char s else unicode_upper env s)"

definition lower :: "env \<Rightarrow> string \<Rightarrow> string" where
  "lower env s = (if is_ascii s then map lower_char s else unicode_lower env s)"

text \<open>\<^verbatim>\<open>s.split(sep)\<close> for a separator of one character: never an empty list.\<close>

fun split :: "char \<Rightarrow> string \<Rightarrow> string list" where
  "split sep [] = [[]]"
| "split sep (c # cs) =
     (if c = sep then [] # split sep cs
      else (case split sep cs of [] \<Rightarrow> [[c]] | w # ws \<Rightarrow> (c # w) # ws))"

text \<open>\<^verbatim>\<open>str(n)\<close> of an integer, as an f-string formats it: decimal, with a sign when negative.\<close>

fun digits :: "nat \<Rightarrow> string" where
  "digits n = (if n < 10 then [char_of (48 + n)] else digits (n div 10) @ [char_of (48 + n mod 10)])"

declare digits.simps [simp del]

definition str_int :: "int \<Rightarrow> string" where
  "str_int i = (if i < 0 then CHR ''-'' # digits (nat (- i)) else digits (nat i))"

text \<open>Truthiness of an \<^verbatim>\<open>Optional[int]\<close>: \<^verbatim>\<open>None\<close> and \<^verbatim>\<open>0\<close> are false.\<close>

definition truthy :: "int option \<Rightarrow> bool" where
  "truthy v = (case v of None \<Rightarrow> False | Some n \<Rightarrow> n \<noteq> 0)"

text \<open>
  \<^verbatim>\<open>int(v)\<close> of a dictionary value: an integer is itself, a string is parsed by the
  runtime (\<open>int_of_str\<close>), which raises \<^verbatim>\<open>ValueError\<close> on what it cannot read.
\<close>

definition py_int :: "env \<Rightarrow> py_value \<Rightarrow> int io" where
  "py_int env v = (case v of IntVal n \<Rightarrow> ret n | StrVal s \<Rightarrow> (\<lambda>t. (int_of_str env s, t)))"

section \<open>The module \<^verbatim>\<open>core/visual_rendering.py\<close>\<close>

text \<open>
  \<^verbatim>\<open>_resize_if_needed(image, max_dim)\<close>: the image itself unless \<open>max_dim\<close> is truthy and
  the larger side exceeds it; then PIL's \<^verbatim>\<open>thumbnail((max_dim, max_dim), LANCZOS)\<close>.
\<close>

definition resize_if_needed :: "env \<Rightarrow> bitmap \<Rightarrow> int option \<Rightarrow> bitmap io" where
  "resize_if_needed env img max_dim =
     (if \<not> truthy max_dim then ret img
      else case max_dim of
        None \<Rightarrow> ret img
      | Some m \<Rightarrow>
          (let w = width img; h = height img in
           if int (max w h) \<le> m then ret img
           else invoke (PilThumbnail img (m, m)) (pil_thumbnail env img (m, m))))"

text \<open>The format \<^verbatim>\<open>render_image\<close> encodes with (lines 54 to 57).\<close>

definition is_str :: "render_input \<Rightarrow> bool" where
  "is_str x = (case x of Path _ \<Rightarrow> True | Bytes _ \<Rightarrow> False)"

definition image_fmt :: "env \<Rightarrow> render_input \<Rightarrow> string \<Rightarrow> string" where
  "image_fmt env image_input mime_type =
     (if \<not> is_str image_input \<and> CHR ''/'' \<in> set mime_type
      then (let fmt = upper env (last (split CHR ''/'' mime_type))
            in if fmt = ''JPG'' then ''JPEG'' else fmt)
      else ''PNG'')"

definition render_image :: "env \<Rightarrow> render_input \<Rightarrow> string \<Rightarrow> int option \<Rightarrow> content list io" where
  "render_image env image_input mime_type max_dimension =
     try_except
       (bind (case image_input of
                Path p \<Rightarrow> invoke (PilOpenPath p) (pil_open_path env p)
              | Bytes b \<Rightarrow> invoke (PilOpenBytes b) (pil_open_bytes env b)) (\<lambda>pil_img.
        bind (resize_if_needed env pil_img max_dimension) (\<lambda>pil_img.
        let fmt = image_fmt env image_input mime_type in
        bind (invoke (PilSave pil_img fmt) (pil_save env pil_img fmt)) (\<lambda>img_bytes.
        ret [to_image_content (Image img_bytes (lower env fmt))]))))
       (\<lambda>e.
        bind (logger_error (''Error rendering image: '' @ str_exn e)) (\<lambda>_.
        ret [Text (''Error rendering image: '' @ str_exn e)]))"

text \<open>
  \<^verbatim>\<open>convert_html_to_pdf\<close>: the import of weasyprint, whose \<^verbatim>\<open>ImportError\<close> is replaced by
  one with a fixed text, then \<^verbatim>\<open>write_pdf\<close>. The thread it runs on is not modelled.
\<close>

definition convert_html_to_pdf :: "env \<Rightarrow> string \<Rightarrow> bytes io" where
  "convert_html_to_pdf env html_content =
     bind (\<lambda>t. case invoke ImportWeasyprint
                      (case import_weasyprint env of None \<Rightarrow> Inr () | Some e \<Rightarrow> Inl e) t of
                 (Inl (ImportError _), t') \<Rightarrow>
                    raise (ImportError ''weasyprint is required for PDF rendering.'') t'
               | r \<Rightarrow> r) (\<lambda>_.
     invoke (WritePdf html_content) (write_pdf env html_content))"

text \<open>
  \<^verbatim>\<open>convert_pdf_to_images\<close>: the keyword arguments hold \<^verbatim>\<open>first_page\<close> and \<^verbatim>\<open>last_page\<close> only
  when they are truthy; whatever pdf2image raises is raised again as a \<^verbatim>\<open>RuntimeError\<close>.
\<close>

definition common_args :: "int option \<Rightarrow> int option \<Rightarrow> string \<Rightarrow> pdf_args" where
  "common_args first_page last_page fmt =
     (let args = \<lparr>kw_fmt = fmt, kw_first_page = None, kw_last_page = None\<rparr>;
          args = (if truthy first_page then args\<lparr>kw_first_page := first_page\<rparr> else args);
          args = (if truthy last_page then args\<lparr>kw_last_page := last_page\<rparr> else args)
      in args)"

definition convert_pdf_to_images ::
  "env \<Rightarrow> render_input \<Rightarrow> int option \<Rightarrow> int option \<Rightarrow> string \<Rightarrow> bitmap list io" where
  "convert_pdf_to_images env pdf_input first_page last_page fmt =
     try_except
       (let args = common_args first_page last_page fmt in
        case pdf_input of
          Path p \<Rightarrow> invoke (ConvertFromPath p args) (convert_from_path env p args)
        | Bytes b \<Rightarrow> invoke (ConvertFromBytes b args) (convert_from_bytes env b args))
       (\<lambda>e. raise (RuntimeError (''Failed to convert PDF to Image: '' @ str_exn e)))"

text \<open>
  \<^verbatim>\<open>render_document_page\<close>: the page count, the range check, the rasterizer for the one
  page, the resizer, the PNG encoder, and the footer (lines 165 to 167); any exception
  becomes a text.
\<close>

definition page_footer :: "int \<Rightarrow> int \<Rightarrow> string" where
  "page_footer page_number total_pages =
     (let footer_text =
            ''Displaying Page '' @ str_int page_number @ '' of '' @ str_int total_pages @ ''.''
      in if page_number < total_pages
         then footer_text @ '' Call this tool again with page_number=''
                @ str_int (page_number + 1) @ '' to see the next page.''
         else footer_text)"

definition pdfinfo :: "env \<Rightarrow> render_input \<Rightarrow> pdf_info io" where
  "pdfinfo env pdf_input =
     (case pdf_input of
        Path p \<Rightarrow> invoke (PdfinfoFromPath p) (pdfinfo_from_path env p)
      | Bytes b \<Rightarrow> invoke (PdfinfoFromBytes b) (pdfinfo_from_bytes env b))"

definition render_document_page ::
  "env \<Rightarrow> render_input \<Rightarrow> int \<Rightarrow> int option \<Rightarrow> content list io" where
  "render_document_page env pdf_input page_number max_dimension =
     try_except
       (bind (pdfinfo env pdf_input) (\<lambda>info.
        bind (py_int env (dict_get info ''Pages'' (IntVal 0))) (\<lambda>total_pages.
        if page_number > total_pages
        then ret [Text (''Error: Page '' @ str_int page_number
                        @ '' does not exist. The document has ''
                        @ str_int total_pages @ '' pages.'')]
        else
        bind (convert_pdf_to_images env pdf_input (Some page_number) (Some page_number) ''png'')
          (\<lambda>images.
        case images of
          [] \<Rightarrow> ret [Text (''Error: Could not render page '' @ str_int page_number
                          @ ''. The document might be empty or invalid.'')]
        | first # _ \<Rightarrow>
        bind (resize_if_needed env first max_dimension) (\<lambda>img.
        bind (invoke (PilSave img ''PNG'') (pil_save env img ''PNG'')) (\<lambda>img_bytes.
        ret [to_image_content (Image img_bytes ''png''),
             Text (page_footer page_number total_pages)]))))))
       (\<lambda>e.
        bind (logger_error (''Error rendering document page: '' @ str_exn e)) (\<lambda>_.
        ret [Text (''Error rendering document: '' @ str_exn e)]))"

section \<open>The module \<^verbatim>\<open>system/local_tools.py\<close>\<close>

text \<open>
  \<^verbatim>\<open>get_local_file_visual\<close>: the two checks of the path, which return a text; then
  \<^verbatim>\<open>mimetypes.guess_type\<close> (line 35), which stands before the \<^verbatim>\<open>try\<close> and whose exception
  therefore leaves the function; then the fallback for a guess that is \<^verbatim>\<open>None\<close> or empty
  (\<open>mime_of\<close>, lines 36 and 37), and inside the \<^verbatim>\<open>try\<close> the branch by type. The coroutine is
  run to its end; its suspension at \<^verbatim>\<open>await\<close> is not modelled.
\<close>

definition mime_of :: "string option \<Rightarrow> string" where
  "mime_of guess =
     (case guess of
        None \<Rightarrow> ''application/octet-stream''
      | Some m \<Rightarrow> if m = [] then ''application/octet-stream'' else m)"

definition get_local_file_visual ::
  "env \<Rightarrow> string \<Rightarrow> int \<Rightarrow> int option \<Rightarrow> content list io" where
  "get_local_file_visual env path page_number max_dimension =
     (if \<not> os_path_exists env path then ret [Text (''Error: File not found at '' @ path)]
      else if \<not> os_path_isfile env path then ret [Text (''Error: Path is not a file: '' @ path)]
      else
        bind (\<lambda>t. (guess_type env path, t)) (\<lambda>guess.
        let mime_type = mime_of guess in
         try_except
           (if prefix ''image/'' mime_type
            then render_image env (Path path) ''image/png'' max_dimension
            else if mime_type = ''application/pdf''
            then render_document_page env (Path path) page_number max_dimension
            else if mime_type = ''text/html''
            then try_except
                   (bind (invoke (OpenRead path) (open_read env path)) (\<lambda>html_content.
                    bind (convert_html_to_pdf env html_content) (\<lambda>pdf_bytes.
                    render_document_page env (Bytes pdf_bytes) page_number max_dimension)))
                   (\<lambda>e. ret [Text (''Error rendering HTML file: '' @ str_exn e)])
            else ret [Text (''Error: Unsupported file type '' @ [CHR 0x27] @ mime_type @ [CHR 0x27]
                            @ ''. Only PDF, Images, and HTML are supported for visual inspection.'')])
           (\<lambda>e.
            bind (logger_error (''Error reading local file: '' @ str_exn e)) (\<lambda>_.
            ret [Text (''Error reading file: '' @ str_exn e)]))))"

section \<open>PIL's thumbnail\<close>

text \<open>
  Modelled from the spec: the shorter side of a thumbnail, a part of PIL's
  \<^verbatim>\<open>Image.thumbnail\<close>, which is not in the sources. The spec says that the aspect ratio is
  preserved within one pixel of rounding: the side is \<open>bound * side / other\<close> rounded to
  the nearest pixel, and never less than one pixel.
\<close>

definition scaled_side :: "nat \<Rightarrow> nat \<Rightarrow> nat \<Rightarrow> nat" where
  "scaled_side bound side other = max 1 ((2 * bound * side + other) div (2 * other))"

text \<open>
  Modelled from the spec: \<^verbatim>\<open>Image.thumbnail\<close> of PIL, which \<^verbatim>\<open>_resize_if_needed\<close> calls and
  which is not in the sources. The spec says of the resizer that the result's larger side
  does not exceed the bound, that the aspect ratio is preserved, and that nothing is ever
  scaled up. So the model fits the image into the box: an image that fits already is
  returned as it is; otherwise the side that limits becomes the box's side and the other
  side is \<open>scaled_side\<close>. The resampling filter, which decides the pixels, is the
  parameter \<open>resample\<close>. The spec assumes a positive bound; for a box or an image with a
  side that is not positive the model raises, as a resize to such a size does.
\<close>

definition thumbnail ::
  "(bitmap \<Rightarrow> nat \<times> nat \<Rightarrow> bytes) \<Rightarrow> bitmap \<Rightarrow> int \<times> int \<Rightarrow> exn + bitmap" where
  "thumbnail resample im box =
     (case box of (bx, by) \<Rightarrow>
        let w = width im; h = height im in
        if int w \<le> bx \<and> int h \<le> by then Inr im
        else if bx \<le> 0 \<or> by \<le> 0 \<or> w = 0 \<or> h = 0
        then Inl (OtherError ''ValueError: height and width must be > 0'')
        else
          let x = nat bx; y = nat by;
              sz = (if y * w \<le> x * h then (scaled_side y w h, y) else (x, scaled_side x h w))
          in Inr \<lparr>width = fst sz, height = snd sz, pixels = resample im sz\<rparr>)"

section \<open>Vocabulary of the properties\<close>

text \<open>The capability call each stage of the PDF pipeline makes, and what the capability returns.\<close>

definition pdfinfo_call :: "render_input \<Rightarrow> call" where
  "pdfinfo_call pdf_input =
     (case pdf_input of Path p \<Rightarrow> PdfinfoFromPath p | Bytes b \<Rightarrow> PdfinfoFromBytes b)"

definition convert_call :: "render_input \<Rightarrow> pdf_args \<Rightarrow> call" where
  "convert_call pdf_input args =
     (case pdf_input of Path p \<Rightarrow> ConvertFromPath p args | Bytes b \<Rightarrow> ConvertFromBytes b args)"

definition rasterize :: "env \<Rightarrow> render_input \<Rightarrow> pdf_args \<Rightarrow> exn + bitmap list" where
  "rasterize env pdf_input args =
     (case pdf_input of
        Path p \<Rightarrow> convert_from_path env p args
      | Bytes b \<Rightarrow> convert_from_bytes env b args)"

text \<open>
  The total page count of a document: the outcome of the first stage of
  \<^verbatim>\<open>render_document_page\<close> (lines 134 to 139), an exception when \<^verbatim>\<open>pdfinfo\<close> or \<^verbatim>\<open>int\<close> raises.
\<close>

definition total_pages_of :: "env \<Rightarrow> render_input \<Rightarrow> exn + int" where
  "total_pages_of env pdf_input =
     fst (bind (pdfinfo env pdf_input)
            (\<lambda>info. py_int env (dict_get info ''Pages'' (IntVal 0))) [])"

text \<open>What the resizer returns for an image, whatever the trace.\<close>

definition resized :: "env \<Rightarrow> bitmap \<Rightarrow> int option \<Rightarrow> exn + bitmap" where
  "resized env img max_dim = fst (resize_if_needed env img max_dim [])"

fun is_convert :: "call \<Rightarrow> bool" where
  "is_convert (ConvertFromPath _ _) = True"
| "is_convert (ConvertFromBytes _ _) = True"
| "is_convert _ = False"

definition rasterizer_calls :: "call list \<Rightarrow> call list" where
  "rasterizer_calls t = filter is_convert t"

fun is_thumbnail :: "call \<Rightarrow> bool" where
  "is_thumbnail (PilThumbnail _ _) = True"
| "is_thumbnail _ = False"

definition page_range :: "int \<Rightarrow> pdf_args" where
  "page_range n = \<lparr>kw_fmt = ''png'', kw_first_page = Some n, kw_last_page = Some n\<rparr>"

definition whole_document :: pdf_args where
  "whole_document = \<lparr>kw_fmt = ''png'', kw_first_page = None, kw_last_page = None\<rparr>"

section \<open>A sample environment\<close>

text \<open>
  A directory with a three-page PDF, a PNG, an HTML file (one page once typeset), a ZIP
  archive, and a file whose name \<^verbatim>\<open>mimetypes.guess_type\<close> takes for a URL with a malformed
  host and rejects with \<^verbatim>\<open>ValueError\<close>. Pages are rasterized at 1700 by 2200 pixels, and the
  encoder returns the pixel content as it is. Of the Unicode case mappings the one entry
  the examples need is given: the upper case of "g", dotless i, "f" (the dotless i is the
  bytes C4 B1) is "GIF", and its lower case is itself. The properties below are
  instantiated on this environment.
\<close>

definition demo_page :: "nat \<Rightarrow> bitmap" where
  "demo_page n = \<lparr>width = 1700, height = 2200, pixels = [word_of_nat n]\<rparr>"

definition demo_pages :: "pdf_args \<Rightarrow> bitmap list" where
  "demo_pages args =
     (case kw_first_page args of
        None \<Rightarrow> [demo_page 1, demo_page 2, demo_page 3]
      | Some n \<Rightarrow> if 1 \<le> n \<and> n \<le> 3 then [demo_page (nat n)] else [])"

definition dotless_gif :: string where
  "dotless_gif = [CHR ''g'', CHR 0xC4, CHR 0xB1, CHR ''f'']"

definition demo_env :: env where
  "demo_env = \<lparr>
     os_path_exists = (\<lambda>p. p \<in> set [''/data'', ''/data/report.pdf'', ''/data/photo.png'',
                                     ''/data/page.html'', ''/data/archive.zip'',
                                     ''ab://[y/a.pdf'']),
     os_path_isfile = (\<lambda>p. p \<in> set [''/data/report.pdf'', ''/data/photo.png'',
                                     ''/data/page.html'', ''/data/archive.zip'',
                                     ''ab://[y/a.pdf'']),
     guess_type = (\<lambda>p. if p = ''ab://[y/a.pdf'' then Inl (OtherError ''Invalid IPv6 URL'')
                        else if p = ''/data/report.pdf'' then Inr (Some ''application/pdf'')
                        else if p = ''/data/photo.png'' then Inr (Some ''image/png'')
                        else if p = ''/data/page.html'' then Inr (Some ''text/html'')
                        else if p = ''/data/archive.zip'' then Inr (Some ''application/zip'')
                        else Inr None),
     open_read = (\<lambda>p. Inr ''<html><body>hello</body></html>''),
     pil_open_path = (\<lambda>p. Inr \<lparr>width = 800, height = 600, pixels = []\<rparr>),
     pil_open_bytes = (\<lambda>b. Inr \<lparr>width = 800, height = 600, pixels = []\<rparr>),
     pil_thumbnail = thumbnail (\<lambda>im sz. []),
     pil_save = (\<lambda>im f. Inr (pixels im)),
     pdfinfo_from_path = (\<lambda>p. Inr (\<lambda>k. if k = ''Pages'' then Some (IntVal 3) else None)),
     pdfinfo_from_bytes = (\<lambda>b. Inr (\<lambda>k. if k = ''Pages'' then Some (IntVal 1) else None)),
     convert_from_path = (\<lambda>p args. Inr (demo_pages args)),
     convert_from_bytes = (\<lambda>b args. Inr (take 1 (demo_pages args))),
     import_weasyprint = None,
     write_pdf = (\<lambda>html. Inr [0x25, 0x50, 0x44, 0x46]),
     int_of_str = (\<lambda>s. Inl (OtherError ''invalid literal for int() with base 10'')),
     unicode_upper = (\<lambda>s. if s = dotless_gif then ''GIF'' else s),
     unicode_lower = (\<lambda>s. s)\<rparr>"

section \<open>Running a computation\<close>

lemma ret_apply [simp]: "ret x t = (Inr x, t)"
  by (simp add: ret_def)

lemma raise_apply [simp]: "raise e t = (Inl e, t)"
  by (simp add: raise_def)

lemma invoke_apply [simp]: "invoke c r t = (r, t @ [c])"
  by (simp add: invoke_def)

lemma logger_error_apply [simp]: "logger_error m t = (Inr (), t @ [LoggerError m])"
  by (simp add: logger_error_def)

lemma bind_apply:
  "bind m f t = (case m t of (Inl e, t') \<Rightarrow> (Inl e, t') | (Inr x, t') \<Rightarrow> f x t')"
  by (simp add: bind_def)

lemma try_except_apply:
  "try_except m h t = (case m t of (Inl e, t') \<Rightarrow> h e t' | (Inr x, t') \<Rightarrow> (Inr x, t'))"
  by (simp add: try_except_def)

lemma bind_eval:
  "m t = (r, t') \<Longrightarrow> bind m f t = (case r of Inl e \<Rightarrow> (Inl e, t') | Inr x \<Rightarrow> f x t')"
  by (simp add: bind_def split: sum.splits)

text \<open>Stage 1 of the PDF pipeline makes one call and yields the page count.\<close>

lemma stage1:
  "bind (pdfinfo env inp) (\<lambda>info. bind (py_int env (dict_get info ''Pages'' (IntVal 0))) g) t
    = (case total_pages_of env inp of
         Inl e \<Rightarrow> (Inl e, t @ [pdfinfo_call inp])
       | Inr n \<Rightarrow> g n (t @ [pdfinfo_call inp]))"
  by (auto simp: total_pages_of_def pdfinfo_def pdfinfo_call_def bind_apply py_int_def
      split: render_input.splits sum.splits py_value.splits)

lemma resize_if_needed_trace:
  "resize_if_needed env img md t = (resized env img md, t @ snd (resize_if_needed env img md []))"
  by (auto simp: resize_if_needed_def resized_def Let_def split: option.splits)

lemma convert_pdf_to_images_apply:
  "convert_pdf_to_images env inp fp lp f t =
     ((case rasterize env inp (common_args fp lp f) of
         Inl e \<Rightarrow> Inl (RuntimeError (''Failed to convert PDF to Image: '' @ str_exn e))
       | Inr images \<Rightarrow> Inr images),
      t @ [convert_call inp (common_args fp lp f)])"
  by (auto simp: convert_pdf_to_images_def try_except_apply rasterize_def convert_call_def Let_def
      split: render_input.splits sum.splits)

lemma common_args_page: "n \<noteq> 0 \<Longrightarrow> common_args (Some n) (Some n) ''png'' = page_range n"
  by (simp add: common_args_def truthy_def page_range_def)

lemma common_args_zero: "common_args (Some 0) (Some 0) ''png'' = whole_document"
  by (simp add: common_args_def truthy_def whole_document_def)

lemmas bind_convert = bind_eval [OF convert_pdf_to_images_apply]

lemmas bind_resize = bind_eval [OF resize_if_needed_trace]

lemmas bind_invoke = bind_eval [OF invoke_apply]

lemmas bind_logger = bind_eval [OF logger_error_apply]

lemmas doc_simps =
  render_document_page_def try_except_apply stage1 bind_convert bind_resize bind_invoke bind_logger

lemma is_convert_convert_call [simp]: "is_convert (convert_call inp a)"
  by (simp add: convert_call_def split: render_input.splits)

lemma is_convert_pdfinfo_call [simp]: "\<not> is_convert (pdfinfo_call inp)"
  by (simp add: pdfinfo_call_def split: render_input.splits)

lemma resize_no_convert [simp]: "filter is_convert (snd (resize_if_needed env img md [])) = []"
  by (auto simp: resize_if_needed_def Let_def split: option.splits)

lemma resize_zero_absent: "resize_if_needed env img (Some 0) = resize_if_needed env img None"
  by (simp add: resize_if_needed_def truthy_def)

lemma resize_zero_apply: "resize_if_needed env img (Some 0) t = (Inr img, t)"
  by (simp add: resize_if_needed_def truthy_def)

section \<open>The sample environment, evaluated\<close>

lemma demo_total_path: "total_pages_of demo_env (Path p) = Inr 3"
  by (simp add: total_pages_of_def demo_env_def pdfinfo_def bind_apply py_int_def dict_get_def)

lemma demo_total_bytes: "total_pages_of demo_env (Bytes b) = Inr 1"
  by (simp add: total_pages_of_def demo_env_def pdfinfo_def bind_apply py_int_def dict_get_def)

lemma rasterize_demo: "rasterize demo_env (Path p) args = Inr (demo_pages args)"
  by (simp add: rasterize_def demo_env_def)

lemma pil_save_demo: "pil_save demo_env im f = Inr (pixels im)"
  by (simp add: demo_env_def)

lemma pil_thumbnail_demo: "pil_thumbnail demo_env = thumbnail (\<lambda>im sz. [])"
  by (simp add: demo_env_def)

lemma resized_demo_page:
  "resized demo_env (demo_page k) (Some 1100) = Inr \<lparr>width = 850, height = 1100, pixels = []\<rparr>"
  by (simp add: resized_def resize_if_needed_def truthy_def demo_page_def pil_thumbnail_demo
      thumbnail_def scaled_side_def)

lemma str_int_small:
  "str_int 0 = ''0''" "str_int 1 = ''1''" "str_int 2 = ''2''" "str_int 3 = ''3''"
  "str_int 4 = ''4''" "str_int 5 = ''5''"
  by code_simp+

section \<open>Arithmetic of the scaled side\<close>

lemma scaled_side_le:
  assumes "0 < b" "s \<le> l" "0 < l"
  shows "scaled_side b s l \<le> b"
proof -
  have "b * s \<le> b * l" using assms by simp
  moreover have "2 * b * s + l = 2 * (b * s) + l" "(b + 1) * (2 * l) = 2 * (b * l) + 2 * l"
    by (simp_all add: algebra_simps)
  ultimately have "2 * b * s + l < (b + 1) * (2 * l)" using \<open>0 < l\<close> by linarith
  then have "(2 * b * s + l) div (2 * l) < b + 1"
    using assms by (simp only: less_mult_imp_div_less)
  then show ?thesis using assms by (simp add: scaled_side_def)
qed

lemma scaled_side_no_upscale:
  assumes "b < l" "0 < s" "s \<le> l"
  shows "scaled_side b s l \<le> s"
proof -
  have "Suc b \<le> l" using assms by simp
  then have "Suc b * s \<le> l * s" by (rule mult_le_mono1)
  then have "b * s + s \<le> s * l" by (simp add: algebra_simps)
  moreover have "2 * b * s + l = 2 * (b * s) + l" "(s + 1) * (2 * l) = 2 * (s * l) + 2 * l"
    by (simp_all add: algebra_simps)
  ultimately have "2 * b * s + l < (s + 1) * (2 * l)" using \<open>0 < s\<close> \<open>s \<le> l\<close> by linarith
  then have "(2 * b * s + l) div (2 * l) < s + 1"
    by (simp only: less_mult_imp_div_less)
  then show ?thesis using assms by (simp add: scaled_side_def)
qed

lemma scaled_side_one_pixel:
  assumes "0 < b" "0 < s" "0 < l"
  shows "\<bar>int (scaled_side b s l) * int l - int b * int s\<bar> < int l"
proof -
  define q where "q = (2 * b * s + l) div (2 * l)"
  define r where "r = (2 * b * s + l) mod (2 * l)"
  have eq: "2 * b * s + l = 2 * l * q + r"
    by (simp add: q_def r_def)
  have r: "r < 2 * l" using assms by (simp add: r_def)
  have bs: "0 < b * s" using assms by simp
  show ?thesis
  proof (cases "q = 0")
    case True
    then have "2 * (b * s) + l < 2 * l" using eq r by simp
    then have "b * s < l" by simp
    then have "int (b * s) < int l" "0 < int (b * s)"
      using bs by (simp_all only: of_nat_less_iff of_nat_0_less_iff)
    then have "int b * int s < int l" "0 < int b * int s" by (simp_all only: of_nat_mult)
    moreover have "scaled_side b s l = 1" using True by (simp add: scaled_side_def q_def)
    ultimately show ?thesis by simp
  next
    case False
    then have s: "scaled_side b s l = q" by (simp add: scaled_side_def q_def)
    have "int (2 * b * s + l) = int (2 * l * q + r)" using eq by simp
    then have "2 * (int b * int s) + int l = 2 * (int l * int q) + int r" by simp
    moreover have "int r < 2 * int l" "0 \<le> int r" using r by simp_all
    moreover have "0 < int l" using assms by simp
    moreover define x where "x = int q * int l"
    moreover define y where "y = int b * int s"
    ultimately have "\<bar>x - y\<bar> < int l"
      by (simp add: mult.commute)
    then show ?thesis using s by (simp add: x_def y_def)
  qed
qed

lemma thumbnail_square:
  assumes "0 < b" "b < int (max (width im) (height im))" "0 < width im" "0 < height im"
  shows "\<exists>im'. thumbnail rs im (b, b) = Inr im'
      \<and> int (max (width im') (height im')) = b
      \<and> width im' \<le> width im \<and> height im' \<le> height im
      \<and> \<bar>int (width im') * int (height im) - int (height im') * int (width im)\<bar>
           < int (max (width im) (height im))"
proof (cases "width im \<le> height im")
  case True
  define n where "n = nat b"
  have n: "0 < n" "int n = b" "n < height im"
    using assms True by (simp_all add: n_def max_def)
  have t: "thumbnail rs im (b, b) =
      Inr \<lparr>width = scaled_side n (width im) (height im), height = n,
           pixels = rs im (scaled_side n (width im) (height im), n)\<rparr>"
  proof -
    have "\<not> int (height im) \<le> b" using n by linarith
    moreover have "nat b * width im \<le> nat b * height im" using True by simp
    ultimately show ?thesis using assms by (simp add: thumbnail_def Let_def n_def)
  qed
  have a: "scaled_side n (width im) (height im) \<le> n"
    using n assms True by (intro scaled_side_le) simp_all
  have b: "scaled_side n (width im) (height im) \<le> width im"
    using n assms True by (intro scaled_side_no_upscale) simp_all
  have c: "\<bar>int (scaled_side n (width im) (height im)) * int (height im)
            - int n * int (width im)\<bar> < int (height im)"
    using n assms by (intro scaled_side_one_pixel) simp_all
  show ?thesis using t a b c n True by (simp add: max_def)
next
  case False
  define n where "n = nat b"
  have n: "0 < n" "int n = b" "n < width im"
    using assms False by (simp_all add: n_def max_def)
  have t: "thumbnail rs im (b, b) =
      Inr \<lparr>width = n, height = scaled_side n (height im) (width im),
           pixels = rs im (n, scaled_side n (height im) (width im))\<rparr>"
  proof -
    have "\<not> int (width im) \<le> b" using n by linarith
    moreover have "\<not> nat b * width im \<le> nat b * height im" using False n by simp
    ultimately show ?thesis using assms by (simp add: thumbnail_def Let_def n_def)
  qed
  have a: "scaled_side n (height im) (width im) \<le> n"
    using n assms False by (intro scaled_side_le) simp_all
  have b: "scaled_side n (height im) (width im) \<le> height im"
    using n assms False by (intro scaled_side_no_upscale) simp_all
  have "\<bar>int (scaled_side n (height im) (width im)) * int (width im)
            - int n * int (height im)\<bar> < int (width im)"
    using n assms by (intro scaled_side_one_pixel) simp_all
  then have c: "\<bar>int n * int (height im)
            - int (scaled_side n (height im) (width im)) * int (width im)\<bar> < int (width im)"
    by (simp add: abs_minus_commute)
  show ?thesis using t a b c n False by (simp add: max_def)
qed

section \<open>The resizer\<close>

text \<open>
  C4: the resizer returns the bitmap unchanged when the bound is absent or when the larger
  side is at most the bound, whatever PIL does; and with PIL's thumbnail as modelled, for a
  bitmap with positive sides whose larger side exceeds a positive bound, the result's
  larger side equals the bound, no side has grown, and the other side is within one pixel
  of the proportional value.
\<close>

theorem resize_if_needed_bound:
  "resize_if_needed env im None t = (Inr im, t)
   \<and> (int (max (width im) (height im)) \<le> b \<longrightarrow>
        resize_if_needed env im (Some b) t = (Inr im, t))
   \<and> (pil_thumbnail env = thumbnail rs \<and> 0 < b \<and> b < int (max (width im) (height im))
        \<and> 0 < width im \<and> 0 < height im \<longrightarrow>
       (\<exists>im'. resize_if_needed env im (Some b) t = (Inr im', t @ [PilThumbnail im (b, b)])
          \<and> int (max (width im') (height im')) = b
          \<and> width im' \<le> width im \<and> height im' \<le> height im
          \<and> \<bar>int (width im') * int (height im) - int (height im') * int (width im)\<bar>
               < int (max (width im) (height im))))"
proof (intro conjI impI)
  show "resize_if_needed env im None t = (Inr im, t)"
    by (simp add: resize_if_needed_def truthy_def)
next
  assume "int (max (width im) (height im)) \<le> b"
  then show "resize_if_needed env im (Some b) t = (Inr im, t)"
    by (simp add: resize_if_needed_def truthy_def)
next
  assume h: "pil_thumbnail env = thumbnail rs \<and> 0 < b \<and> b < int (max (width im) (height im))
       \<and> 0 < width im \<and> 0 < height im"
  then have r: "resize_if_needed env im (Some b) t =
      (thumbnail rs im (b, b), t @ [PilThumbnail im (b, b)])"
    by (simp add: resize_if_needed_def truthy_def Let_def)
  from h thumbnail_square [of b im rs] obtain im' where
    "thumbnail rs im (b, b) = Inr im'" "int (max (width im') (height im')) = b"
    "width im' \<le> width im" "height im' \<le> height im"
    "\<bar>int (width im') * int (height im) - int (height im') * int (width im)\<bar>
           < int (max (width im) (height im))" by blast
  then show "\<exists>im'. resize_if_needed env im (Some b) t = (Inr im', t @ [PilThumbnail im (b, b)])
         \<and> int (max (width im') (height im')) = b
         \<and> width im' \<le> width im \<and> height im' \<le> height im
         \<and> \<bar>int (width im') * int (height im) - int (height im') * int (width im)\<bar>
              < int (max (width im) (height im))"
    using r by auto
qed

theorem resize_if_needed_bound_witness:
  "resize_if_needed demo_env (demo_page 1) (Some 2200) [] = (Inr (demo_page 1), [])
   \<and> (\<exists>im'. resize_if_needed demo_env (demo_page 1) (Some 1100) [] =
               (Inr im', [PilThumbnail (demo_page 1) (1100, 1100)])
          \<and> int (max (width im') (height im')) = 1100
          \<and> width im' \<le> 1700 \<and> height im' \<le> 2200
          \<and> \<bar>int (width im') * 2200 - int (height im') * 1700\<bar> < 2200)"
  using resize_if_needed_bound [of demo_env "demo_page 1" "[]" 2200 "\<lambda>im sz. []"]
    resize_if_needed_bound [of demo_env "demo_page 1" "[]" 1100 "\<lambda>im sz. []"]
  by (simp add: pil_thumbnail_demo demo_page_def)

text \<open>
  C10: a bound of 0 is the absent bound: the resizer returns the bitmap unchanged and makes
  no call, so \<^verbatim>\<open>render_image\<close> and \<^verbatim>\<open>render_document_page\<close> with \<^verbatim>\<open>max_dimension = 0\<close> run
  as they do without a bound and never call PIL's thumbnail.
\<close>

theorem resize_zero_is_absent:
  "resize_if_needed env img (Some 0) = resize_if_needed env img None
   \<and> resize_if_needed env img (Some 0) t = (Inr img, t)
   \<and> render_image env inp mime (Some 0) = render_image env inp mime None
   \<and> render_document_page env pdf p (Some 0) = render_document_page env pdf p None
   \<and> filter is_thumbnail (snd (render_image env inp mime (Some 0) [])) = []
   \<and> filter is_thumbnail (snd (render_document_page env pdf p (Some 0) [])) = []"
proof -
  have 1: "render_image env inp mime (Some 0) = render_image env inp mime None"
    unfolding render_image_def resize_zero_absent by (rule refl)
  have 2: "render_document_page env pdf p (Some 0) = render_document_page env pdf p None"
    unfolding render_document_page_def resize_zero_absent by (rule refl)
  have 3: "filter is_thumbnail (snd (render_image env inp mime (Some 0) [])) = []"
    by (simp add: render_image_def try_except_apply bind_invoke bind_logger
        bind_eval [OF resize_zero_apply] Let_def split: render_input.splits sum.splits)
  have 4: "filter is_thumbnail (snd (render_document_page env pdf p (Some 0) [])) = []"
    by (simp add: render_document_page_def try_except_apply stage1 bind_convert bind_invoke
        bind_logger bind_eval [OF resize_zero_apply] pdfinfo_call_def convert_call_def
        split: render_input.splits sum.splits list.splits)
  show ?thesis
    by (intro conjI) (rule resize_zero_absent resize_zero_apply 1 2 3 4)+
qed

section \<open>The PDF page pipeline\<close>

text \<open>
  C3: for a PDF of \<open>N\<close> pages and a requested page beyond \<open>N\<close>, the result is the single
  text that names the requested page and \<open>N\<close>; the only call made is the page count's, so
  the rasterizer is never invoked and no image is produced.
\<close>

theorem render_document_page_out_of_range:
  assumes "total_pages_of env pdf_input = Inr N" and "N < page_number"
  shows "render_document_page env pdf_input page_number max_dimension t =
           (Inr [Text (''Error: Page '' @ str_int page_number
                       @ '' does not exist. The document has '' @ str_int N @ '' pages.'')],
            t @ [pdfinfo_call pdf_input])
         \<and> sublist (str_int page_number)
              (''Error: Page '' @ str_int page_number
               @ '' does not exist. The document has '' @ str_int N @ '' pages.'')
         \<and> sublist (str_int N)
              (''Error: Page '' @ str_int page_number
               @ '' does not exist. The document has '' @ str_int N @ '' pages.'')
         \<and> rasterizer_calls (snd (render_document_page env pdf_input page_number max_dimension t))
             = rasterizer_calls t"
proof (intro conjI)
  show r: "render_document_page env pdf_input page_number max_dimension t =
           (Inr [Text (''Error: Page '' @ str_int page_number
                       @ '' does not exist. The document has '' @ str_int N @ '' pages.'')],
            t @ [pdfinfo_call pdf_input])"
    using assms by (simp add: render_document_page_def try_except_apply stage1)
  show "sublist (str_int page_number)
              (''Error: Page '' @ str_int page_number
               @ '' does not exist. The document has '' @ str_int N @ '' pages.'')"
    by (rule sublist_appendI)
  have "sublist (str_int N)
              ((''Error: Page '' @ str_int page_number @ '' does not exist. The document has '')
               @ str_int N @ '' pages.'')"
    by (rule sublist_appendI)
  then show "sublist (str_int N)
              (''Error: Page '' @ str_int page_number
               @ '' does not exist. The document has '' @ str_int N @ '' pages.'')"
    by (simp only: append_assoc)
  show "rasterizer_calls (snd (render_document_page env pdf_input page_number max_dimension t))
             = rasterizer_calls t"
    by (simp only: r snd_conv) (simp add: rasterizer_calls_def)
qed

theorem render_document_page_out_of_range_witness:
  "render_document_page demo_env (Path ''/data/report.pdf'') 5 None [] =
     (Inr [Text ''Error: Page 5 does not exist. The document has 3 pages.''],
      [PdfinfoFromPath ''/data/report.pdf''])
   \<and> rasterizer_calls
        (snd (render_document_page demo_env (Path ''/data/report.pdf'') 5 None [])) = []"
  using render_document_page_out_of_range
    [of demo_env "Path ''/data/report.pdf''" 3 5 None "[]"]
  by (simp add: demo_total_path str_int_small pdfinfo_call_def rasterizer_calls_def)

text \<open>
  C6: for a PDF of \<open>N\<close> pages and a requested page from 1 to \<open>N\<close> for which the rasterizer
  returns no image, the result is the single text that names the page and says the
  document might be empty or invalid; the calls made are the page count's and the
  rasterizer's, and nothing is raised or logged.
\<close>

theorem render_document_page_empty_rasterization:
  assumes "total_pages_of env pdf_input = Inr N" and "1 \<le> page_number" and "page_number \<le> N"
    and "rasterize env pdf_input (page_range page_number) = Inr []"
  shows "render_document_page env pdf_input page_number max_dimension t =
           (Inr [Text (''Error: Could not render page '' @ str_int page_number
                       @ ''. The document might be empty or invalid.'')],
            t @ [pdfinfo_call pdf_input, convert_call pdf_input (page_range page_number)])
         \<and> sublist (str_int page_number)
              (''Error: Could not render page '' @ str_int page_number
               @ ''. The document might be empty or invalid.'')
         \<and> sublist ''might be empty or invalid''
              (''Error: Could not render page '' @ str_int page_number
               @ ''. The document might be empty or invalid.'')"
proof (intro conjI)
  show "render_document_page env pdf_input page_number max_dimension t =
           (Inr [Text (''Error: Could not render page '' @ str_int page_number
                       @ ''. The document might be empty or invalid.'')],
            t @ [pdfinfo_call pdf_input, convert_call pdf_input (page_range page_number)])"
    using assms by (simp add: doc_simps common_args_page)
  show "sublist (str_int page_number)
              (''Error: Could not render page '' @ str_int page_number
               @ ''. The document might be empty or invalid.'')"
    by (rule sublist_appendI)
  have "sublist ''might be empty or invalid''
              ((''Error: Could not render page '' @ str_int page_number @ ''. The document '')
               @ ''might be empty or invalid'' @ ''.'')"
    by (rule sublist_appendI)
  then show "sublist ''might be empty or invalid''
              (''Error: Could not render page '' @ str_int page_number
               @ ''. The document might be empty or invalid.'')"
    by (simp only: append_assoc append.simps)
qed

theorem render_document_page_empty_rasterization_witness:
  "render_document_page (demo_env\<lparr>convert_from_path := \<lambda>p args. Inr []\<rparr>)
      (Path ''/data/report.pdf'') 2 None [] =
     (Inr [Text ''Error: Could not render page 2. The document might be empty or invalid.''],
      [PdfinfoFromPath ''/data/report.pdf'',
       ConvertFromPath ''/data/report.pdf''
         \<lparr>kw_fmt = ''png'', kw_first_page = Some 2, kw_last_page = Some 2\<rparr>])"
proof -
  have n: "total_pages_of (demo_env\<lparr>convert_from_path := \<lambda>p args. Inr []\<rparr>)
             (Path ''/data/report.pdf'') = Inr 3"
    by (simp add: total_pages_of_def demo_env_def pdfinfo_def bind_apply py_int_def dict_get_def)
  have e: "rasterize (demo_env\<lparr>convert_from_path := \<lambda>p args. Inr []\<rparr>)
             (Path ''/data/report.pdf'') (page_range 2) = Inr []"
    by (simp add: rasterize_def)
  show ?thesis
    using render_document_page_empty_rasterization [OF n _ _ e, of None "[]"]
    by (simp add: str_int_small pdfinfo_call_def convert_call_def page_range_def)
qed

text \<open>
  C7: a run for a page number of at least 1 calls the rasterizer only when the page count
  is known and the page is in range, then exactly once, with both \<^verbatim>\<open>first_page\<close> and
  \<^verbatim>\<open>last_page\<close> set to the page number; it never calls it without a page range.
\<close>

theorem render_document_page_single_page_range:
  assumes "1 \<le> page_number"
  shows "rasterizer_calls (snd (render_document_page env pdf_input page_number max_dimension [])) =
           (case total_pages_of env pdf_input of
              Inl e \<Rightarrow> []
            | Inr N \<Rightarrow>
                if page_number \<le> N
                then [convert_call pdf_input
                        \<lparr>kw_fmt = ''png'', kw_first_page = Some page_number,
                         kw_last_page = Some page_number\<rparr>]
                else [])"
  using assms
  by (simp add: doc_simps common_args_page rasterizer_calls_def page_range_def [symmetric]
      split: sum.splits list.splits)

theorem render_document_page_single_page_range_witness:
  "rasterizer_calls
     (snd (render_document_page demo_env (Path ''/data/report.pdf'') 2 (Some 1100) [])) =
     [ConvertFromPath ''/data/report.pdf''
        \<lparr>kw_fmt = ''png'', kw_first_page = Some 2, kw_last_page = Some 2\<rparr>]"
  using render_document_page_single_page_range
    [of 2 demo_env "Path ''/data/report.pdf''" "Some 1100"]
  by (simp add: demo_total_path convert_call_def)

text \<open>
  C2: for a PDF of \<open>N\<close> pages and a requested page \<open>n\<close> from 1 to \<open>N\<close> that the rasterizer turns
  into an image, which is then bounded and encoded as PNG without an error, the result is
  exactly the image artifact followed by the footer "Displaying Page n of N.", with the
  hint naming page \<open>n + 1\<close> appended if and only if \<open>n < N\<close>; for the only page of a
  one-page document the footer is "Displaying Page 1 of 1.".
\<close>

theorem render_document_page_footer:
  assumes "total_pages_of env pdf_input = Inr N" and "1 \<le> n" and "n \<le> N"
    and "rasterize env pdf_input (page_range n) = Inr (bm # bms)"
    and "resized env bm max_dimension = Inr img"
    and "pil_save env img ''PNG'' = Inr d"
  shows "fst (render_document_page env pdf_input n max_dimension t) =
           Inr [ImageContent (Image d ''png''),
                Text (''Displaying Page '' @ str_int n @ '' of '' @ str_int N @ ''.''
                      @ (if n < N
                         then '' Call this tool again with page_number='' @ str_int (n + 1)
                              @ '' to see the next page.''
                         else []))]
         \<and> (N = 1 \<longrightarrow>
              fst (render_document_page env pdf_input n max_dimension t) =
                Inr [ImageContent (Image d ''png''), Text ''Displaying Page 1 of 1.''])"
proof -
  have r: "fst (render_document_page env pdf_input n max_dimension t) =
           Inr [ImageContent (Image d ''png''), Text (page_footer n N)]"
    using assms by (simp add: doc_simps common_args_page to_image_content_def)
  have one: "N = 1 \<Longrightarrow> page_footer n N = ''Displaying Page 1 of 1.''"
  proof -
    assume "N = 1"
    then have "n = 1" using assms by simp
    then show ?thesis using \<open>N = 1\<close> by (simp add: page_footer_def str_int_small)
  qed
  show ?thesis
    using r one by (simp add: page_footer_def)
qed

theorem render_document_page_footer_witness:
  "fst (render_document_page demo_env (Path ''/data/report.pdf'') 2 (Some 1100) []) =
     Inr [ImageContent (Image [] ''png''),
          Text ''Displaying Page 2 of 3. Call this tool again with page_number=3 to see the next page.'']
   \<and> fst (render_document_page demo_env (Path ''/data/report.pdf'') 3 (Some 1100) []) =
     Inr [ImageContent (Image [] ''png''), Text ''Displaying Page 3 of 3.'']
   \<and> fst (render_document_page demo_env (Bytes [0x25, 0x50, 0x44, 0x46]) 1 (Some 1100) []) =
     Inr [ImageContent (Image [] ''png''), Text ''Displaying Page 1 of 1.'']"
proof -
  have r2: "rasterize demo_env (Path ''/data/report.pdf'') (page_range 2) = Inr (demo_page 2 # [])"
    by (simp add: rasterize_demo demo_pages_def page_range_def)
  have r3: "rasterize demo_env (Path ''/data/report.pdf'') (page_range 3) = Inr (demo_page 3 # [])"
    by (simp add: rasterize_demo demo_pages_def page_range_def)
  have r1: "rasterize demo_env (Bytes [0x25, 0x50, 0x44, 0x46]) (page_range 1) = Inr (demo_page 1 # [])"
    by (simp add: rasterize_def demo_env_def demo_pages_def page_range_def)
  have s: "pil_save demo_env \<lparr>width = 850, height = 1100, pixels = []\<rparr> ''PNG'' = Inr []"
    by (simp add: pil_save_demo)
  show ?thesis
    using render_document_page_footer [OF demo_total_path _ _ r2 resized_demo_page s, of "[]"]
      render_document_page_footer [OF demo_total_path _ _ r3 resized_demo_page s, of "[]"]
      render_document_page_footer [OF demo_total_bytes _ _ r1 resized_demo_page s, of "[]"]
    by (simp add: str_int_small)
qed

text \<open>
  C9: for a PDF of \<open>N \<ge> 1\<close> pages, page number 0 passes the range check, and the rasterizer
  is called with no page range (neither \<^verbatim>\<open>first_page\<close> nor \<^verbatim>\<open>last_page\<close>), so for the whole
  document; the result is never the out-of-range error; and when the rasterizer returns
  images and the first is bounded and encoded without an error, the result is that
  image's artifact with the footer "Displaying Page 0 of N." and the hint naming page 1.
\<close>

theorem render_document_page_zero:
  assumes "total_pages_of env pdf_input = Inr N" and "1 \<le> N"
  shows "(\<exists>r t'. render_document_page env pdf_input 0 max_dimension t =
                  (Inr r, t @ [pdfinfo_call pdf_input, convert_call pdf_input whole_document] @ t')
                \<and> r \<noteq> [Text (''Error: Page '' @ str_int 0
                               @ '' does not exist. The document has '' @ str_int N @ '' pages.'')])
         \<and> (rasterize env pdf_input whole_document = Inr (bm # bms)
              \<and> resized env bm max_dimension = Inr img \<and> pil_save env img ''PNG'' = Inr d \<longrightarrow>
            fst (render_document_page env pdf_input 0 max_dimension t) =
              Inr [ImageContent (Image d ''png''),
                   Text (''Displaying Page 0 of '' @ str_int N
                         @ ''. Call this tool again with page_number=1 to see the next page.'')])"
proof (intro conjI impI)
  show "\<exists>r t'. render_document_page env pdf_input 0 max_dimension t =
                  (Inr r, t @ [pdfinfo_call pdf_input, convert_call pdf_input whole_document] @ t')
                \<and> r \<noteq> [Text (''Error: Page '' @ str_int 0
                               @ '' does not exist. The document has '' @ str_int N @ '' pages.'')]"
    using assms
    by (simp add: doc_simps common_args_zero to_image_content_def split: sum.splits list.splits)
next
  assume "rasterize env pdf_input whole_document = Inr (bm # bms)
              \<and> resized env bm max_dimension = Inr img \<and> pil_save env img ''PNG'' = Inr d"
  then show "fst (render_document_page env pdf_input 0 max_dimension t) =
              Inr [ImageContent (Image d ''png''),
                   Text (''Displaying Page 0 of '' @ str_int N
                         @ ''. Call this tool again with page_number=1 to see the next page.'')]"
    using assms
    by (simp add: doc_simps common_args_zero to_image_content_def page_footer_def str_int_small)
qed

theorem render_document_page_zero_witness:
  "fst (render_document_page demo_env (Path ''/data/report.pdf'') 0 (Some 1100) []) =
     Inr [ImageContent (Image [] ''png''),
          Text ''Displaying Page 0 of 3. Call this tool again with page_number=1 to see the next page.'']
   \<and> (\<exists>r t'. render_document_page demo_env (Path ''/data/report.pdf'') 0 (Some 1100) [] =
          (Inr r, [PdfinfoFromPath ''/data/report.pdf'',
                   ConvertFromPath ''/data/report.pdf''
                     \<lparr>kw_fmt = ''png'', kw_first_page = None, kw_last_page = None\<rparr>] @ t'))"
proof -
  have r: "rasterize demo_env (Path ''/data/report.pdf'') whole_document =
             Inr (demo_page 1 # [demo_page 2, demo_page 3])"
    by (simp add: rasterize_demo demo_pages_def whole_document_def)
  have s: "pil_save demo_env \<lparr>width = 850, height = 1100, pixels = []\<rparr> ''PNG'' = Inr []"
    by (simp add: pil_save_demo)
  have n: "(1::int) \<le> 3" by simp
  show ?thesis
    using render_document_page_zero [OF demo_total_path [of "''/data/report.pdf''"] n,
        where max_dimension = "Some 1100" and t = "[]" and bm = "demo_page 1"
          and bms = "[demo_page 2, demo_page 3]"
          and img = "\<lparr>width = 850, height = 1100, pixels = []\<rparr>" and d = "[]"]
      r s resized_demo_page [of 1]
    by (auto simp add: str_int_small pdfinfo_call_def convert_call_def whole_document_def)
qed

section \<open>Letter case and splitting\<close>

lemma lower_upper_char: "lower_char (upper_char c) = lower_char c"
proof -
  have "of_char c < (256::nat)" by simp
  then show ?thesis
    by (auto simp: lower_char_def upper_char_def Let_def)
qed

lemma upper_char_code:
  "(of_char (upper_char c) :: nat) =
     (if 97 \<le> (of_char c :: nat) \<and> (of_char c :: nat) \<le> 122 then of_char c - 32 else of_char c)"
proof -
  have "of_char c < (256::nat)" by simp
  then show ?thesis by (auto simp: upper_char_def Let_def)
qed

lemma lower_char_code:
  "(of_char (lower_char c) :: nat) =
     (if 65 \<le> (of_char c :: nat) \<and> (of_char c :: nat) \<le> 90 then of_char c + 32 else of_char c)"
proof -
  have "of_char c < (256::nat)" by simp
  then show ?thesis by (auto simp: lower_char_def Let_def)
qed

lemma char_eq_code: "c = d \<longleftrightarrow> (of_char c :: nat) = of_char d"
  by simp

lemma upper_is_J: "upper_char c = CHR ''J'' \<longleftrightarrow> lower_char c = CHR ''j''"
  by (simp add: char_eq_code [of "upper_char c"] char_eq_code [of "lower_char c"]
      upper_char_code lower_char_code) arith

lemma upper_is_P: "upper_char c = CHR ''P'' \<longleftrightarrow> lower_char c = CHR ''p''"
  by (simp add: char_eq_code [of "upper_char c"] char_eq_code [of "lower_char c"]
      upper_char_code lower_char_code) arith

lemma upper_is_G: "upper_char c = CHR ''G'' \<longleftrightarrow> lower_char c = CHR ''g''"
  by (simp add: char_eq_code [of "upper_char c"] char_eq_code [of "lower_char c"]
      upper_char_code lower_char_code) arith

lemma upper_is_JPG: "map upper_char s = ''JPG'' \<longleftrightarrow> map lower_char s = ''jpg''"
  by (simp add: map_eq_Cons_conv upper_is_J upper_is_P upper_is_G)

lemma upper_char_ascii: "(of_char c :: nat) < 128 \<Longrightarrow> (of_char (upper_char c) :: nat) < 128"
  by (auto simp: upper_char_code)

lemma is_ascii_upper: "is_ascii s \<Longrightarrow> is_ascii (map upper_char s)"
  by (induction s) (simp_all add: is_ascii_def upper_char_ascii)

lemma lower_upper_ascii: "is_ascii s \<Longrightarrow> lower env (upper env s) = lower env s"
  by (simp add: lower_def upper_def is_ascii_upper lower_upper_char)

lemma upper_is_JPG_ascii:
  "is_ascii s \<Longrightarrow> upper env s = ''JPG'' \<longleftrightarrow> lower env s = ''jpg''"
  by (simp add: lower_def upper_def upper_is_JPG)

lemma lower_PNG: "lower env ''PNG'' = ''png''"
proof -
  have "is_ascii ''PNG''" "map lower_char ''PNG'' = ''png''" by code_simp+
  then show ?thesis by (simp add: lower_def)
qed

lemma lower_JPEG: "lower env ''JPEG'' = ''jpeg''"
proof -
  have "is_ascii ''JPEG''" "map lower_char ''JPEG'' = ''jpeg''" by code_simp+
  then show ?thesis by (simp add: lower_def)
qed

lemma split_not_Nil [simp]: "split sep s \<noteq> []"
  by (induction s) (auto split: list.splits)

lemma split_no_sep: "sep \<notin> set s \<Longrightarrow> split sep s = [s]"
  by (induction s) auto

lemma split_two: "\<exists>w v vs. split sep (ty @ sep # sub) = w # v # vs"
proof (induction ty)
  case Nil
  then show ?case by (cases "split sep sub") auto
next
  case (Cons a ty)
  then show ?case by auto
qed

lemma last_split: "sep \<notin> set sub \<Longrightarrow> last (split sep (ty @ sep # sub)) = sub"
proof (induction ty)
  case Nil
  then show ?case by (simp add: split_no_sep)
next
  case (Cons a ty)
  obtain w v vs where "split sep (ty @ sep # sub) = w # v # vs"
    using split_two by blast
  then show ?case using Cons by auto
qed

section \<open>The image renderer\<close>

lemma render_image_success:
  assumes "render_image env image_input mime_type max_dimension t = (Inr [ImageContent img], t')"
  shows "\<exists>bm ts. t' = ts @ [PilSave bm (image_fmt env image_input mime_type)]
           \<and> pil_save env bm (image_fmt env image_input mime_type) = Inr (data img)
           \<and> format img = lower env (image_fmt env image_input mime_type)"
  using assms
  by (auto simp: render_image_def try_except_apply bind_invoke bind_logger bind_resize Let_def
      to_image_content_def split: render_input.splits sum.splits)

lemma render_image_shape:
  "\<exists>r t'. render_image env image_input mime_type max_dimension t = (Inr r, t')
     \<and> ((\<exists>s. r = [Text (''Error'' @ s)]) \<or> (\<exists>img. r = [ImageContent img]))"
  by (auto simp: render_image_def try_except_apply bind_invoke bind_logger bind_resize Let_def
      to_image_content_def split: render_input.splits sum.splits)

lemma render_document_page_shape:
  "\<exists>r t'. render_document_page env pdf_input page_number max_dimension t = (Inr r, t')
     \<and> ((\<exists>s. r = [Text (''Error'' @ s)])
        \<or> (\<exists>img s. r = [ImageContent img, Text (''Displaying Page '' @ s)]))"
  by (auto simp: doc_simps to_image_content_def page_footer_def Let_def
      split: sum.splits list.splits)

text \<open>
  C5, as the code has it: when \<^verbatim>\<open>render_image\<close> succeeds, the artifact's bytes are what PIL's
  encoder returned for the chosen format, and its format tag is that format put in lower
  case. For a path the format is PNG and the tag "png", whatever the hint. For a byte
  buffer whose hint ends in "/" and a subtype, the format is the subtype put in upper case,
  with JPG replaced by JPEG; and when the subtype is ASCII the tag is the subtype in lower
  case with "jpg" replaced by "jpeg".
\<close>

theorem render_image_format:
  assumes "render_image env image_input mime_type max_dimension t = (Inr [ImageContent img], t')"
  shows "(\<exists>bm ts. t' = ts @ [PilSave bm (image_fmt env image_input mime_type)]
            \<and> pil_save env bm (image_fmt env image_input mime_type) = Inr (data img))
         \<and> format img = lower env (image_fmt env image_input mime_type)
         \<and> (image_input = Path p \<longrightarrow>
              image_fmt env image_input mime_type = ''PNG'' \<and> format img = ''png'')
         \<and> (image_input = Bytes b \<and> mime_type = ty @ CHR ''/'' # sub \<and> CHR ''/'' \<notin> set sub \<longrightarrow>
              image_fmt env image_input mime_type =
                (if upper env sub = ''JPG'' then ''JPEG'' else upper env sub)
              \<and> (is_ascii sub \<longrightarrow>
                   format img = (if lower env sub = ''jpg'' then ''jpeg'' else lower env sub)))"
proof -
  from render_image_success [OF assms] obtain bm ts where
    s: "t' = ts @ [PilSave bm (image_fmt env image_input mime_type)]"
       "pil_save env bm (image_fmt env image_input mime_type) = Inr (data img)"
       "format img = lower env (image_fmt env image_input mime_type)"
    by blast
  have path: "image_input = Path p \<Longrightarrow>
      image_fmt env image_input mime_type = ''PNG'' \<and> format img = ''png''"
    using s(3) by (simp add: image_fmt_def is_str_def lower_PNG)
  have fmt: "image_input = Bytes b \<and> mime_type = ty @ CHR ''/'' # sub \<and> CHR ''/'' \<notin> set sub \<Longrightarrow>
      image_fmt env image_input mime_type =
        (if upper env sub = ''JPG'' then ''JPEG'' else upper env sub)"
    by (auto simp: image_fmt_def is_str_def last_split Let_def)
  have tag: "image_input = Bytes b \<and> mime_type = ty @ CHR ''/'' # sub \<and> CHR ''/'' \<notin> set sub \<Longrightarrow>
      is_ascii sub \<Longrightarrow>
      format img = (if lower env sub = ''jpg'' then ''jpeg'' else lower env sub)"
    using s(3) fmt
    by (auto simp: lower_JPEG lower_upper_ascii upper_is_JPG_ascii)
  show ?thesis
    using s path fmt tag by blast
qed

theorem render_image_format_witness:
  "render_image demo_env (Bytes [0xFF, 0xD8]) ''image/jpg'' None [] =
     (Inr [ImageContent (Image [] ''jpeg'')],
      [PilOpenBytes [0xFF, 0xD8], PilSave \<lparr>width = 800, height = 600, pixels = []\<rparr> ''JPEG''])
   \<and> image_fmt demo_env (Bytes [0xFF, 0xD8]) ''image/jpg'' = ''JPEG''
   \<and> format (Image [] ''jpeg'') =
       (if lower demo_env ''jpg'' = ''jpg'' then ''jpeg'' else lower demo_env ''jpg'')
   \<and> render_image demo_env (Path ''/data/photo.jpg'') ''image/png'' None [] =
     (Inr [ImageContent (Image [] ''png'')],
      [PilOpenPath ''/data/photo.jpg'', PilSave \<lparr>width = 800, height = 600, pixels = []\<rparr> ''PNG''])
   \<and> image_fmt demo_env (Path ''/data/photo.jpg'') ''image/png'' = ''PNG''"
proof -
  have a: "is_ascii ''jpg''" "map upper_char ''jpg'' = ''JPG''"
    by code_simp+
  then have u: "upper demo_env ''jpg'' = ''JPG''"
    by (simp add: upper_def)
  have f: "image_fmt demo_env (Bytes [0xFF, 0xD8]) ''image/jpg'' = ''JPEG''"
    by (simp add: image_fmt_def is_str_def u)
  have g: "image_fmt demo_env (Path ''/data/photo.jpg'') ''image/png'' = ''PNG''"
    by (simp add: image_fmt_def is_str_def)
  have o: "pil_open_bytes demo_env [0xFF, 0xD8] = Inr \<lparr>width = 800, height = 600, pixels = []\<rparr>"
    "pil_open_path demo_env ''/data/photo.jpg'' = Inr \<lparr>width = 800, height = 600, pixels = []\<rparr>"
    by (simp_all add: demo_env_def)
  have b: "render_image demo_env (Bytes [0xFF, 0xD8]) ''image/jpg'' None [] =
     (Inr [ImageContent (Image [] ''jpeg'')],
      [PilOpenBytes [0xFF, 0xD8], PilSave \<lparr>width = 800, height = 600, pixels = []\<rparr> ''JPEG''])"
    by (simp add: render_image_def try_except_apply bind_apply f o pil_save_demo lower_JPEG
        to_image_content_def resize_if_needed_def truthy_def)
  have p: "render_image demo_env (Path ''/data/photo.jpg'') ''image/png'' None [] =
     (Inr [ImageContent (Image [] ''png'')],
      [PilOpenPath ''/data/photo.jpg'', PilSave \<lparr>width = 800, height = 600, pixels = []\<rparr> ''PNG''])"
    by (simp add: render_image_def try_except_apply bind_apply g o pil_save_demo lower_PNG
        to_image_content_def resize_if_needed_def truthy_def)
  have h: "Bytes [0xFF, 0xD8] = Bytes [0xFF, 0xD8]
      \<and> ''image/jpg'' = ''image'' @ CHR ''/'' # ''jpg'' \<and> CHR ''/'' \<notin> set ''jpg''"
    by simp
  have k: "Path ''/data/photo.jpg'' = Path ''/data/photo.jpg''"
    by (rule refl)
  note c = render_image_format [OF b, where b = "[0xFF, 0xD8]" and ty = "''image''"
      and sub = "''jpg''" and p = "''/x''"]
  note d = render_image_format [OF p, where p = "''/data/photo.jpg''" and b = "[]"
      and ty = "''image''" and sub = "''png''"]
  have c': "format (Image [] ''jpeg'') =
      (if lower demo_env ''jpg'' = ''jpg'' then ''jpeg'' else lower demo_env ''jpg'')"
    using c h a(1) by blast
  have d': "image_fmt demo_env (Path ''/data/photo.jpg'') ''image/png'' = ''PNG''"
    using d k by blast
  show ?thesis
    using b f c' p d' by blast
qed

text \<open>
  C5 as it was stated calls the tag "the subtype lowercased" for every successful call.
  For the hint "image/" followed by "g", dotless i, "f" the call succeeds with the encoder
  GIF and the tag "gif", while the subtype in lower case is itself, dotless i included.
\<close>

theorem render_image_format_counterexample:
  "render_image demo_env (Bytes [0x47, 0x49, 0x46]) (''image/'' @ dotless_gif) None [] =
     (Inr [ImageContent (Image [] ''gif'')],
      [PilOpenBytes [0x47, 0x49, 0x46],
       PilSave \<lparr>width = 800, height = 600, pixels = []\<rparr> ''GIF''])
   \<and> CHR ''/'' \<in> set (''image/'' @ dotless_gif)
   \<and> last (split CHR ''/'' (''image/'' @ dotless_gif)) = dotless_gif
   \<and> format (Image [] ''gif'') \<noteq>
       (if lower demo_env dotless_gif = ''jpg'' then ''jpeg'' else lower demo_env dotless_gif)"
proof -
  have n: "\<not> is_ascii dotless_gif" "is_ascii ''GIF''" "map lower_char ''GIF'' = ''gif''"
    by code_simp+
  have u: "upper demo_env dotless_gif = ''GIF''"
    using n(1) by (simp add: upper_def demo_env_def)
  have l: "lower demo_env dotless_gif = dotless_gif"
    using n(1) by (simp add: lower_def demo_env_def)
  have l': "lower demo_env ''GIF'' = ''gif''"
    using n(2,3) by (simp add: lower_def)
  have sl: "CHR ''/'' \<notin> set dotless_gif"
    by (simp add: dotless_gif_def)
  have sp: "last (split CHR ''/'' (''image/'' @ dotless_gif)) = dotless_gif"
    using last_split [OF sl, of "''image''"] by simp
  have f: "image_fmt demo_env (Bytes [0x47, 0x49, 0x46]) (''image/'' @ dotless_gif) = ''GIF''"
    by (simp add: image_fmt_def is_str_def split_no_sep [OF sl] u Let_def)
  have o: "pil_open_bytes demo_env [0x47, 0x49, 0x46] = Inr \<lparr>width = 800, height = 600, pixels = []\<rparr>"
    by (simp add: demo_env_def)
  have r: "render_image demo_env (Bytes [0x47, 0x49, 0x46]) (''image/'' @ dotless_gif) None [] =
     (Inr [ImageContent (Image [] ''gif'')],
      [PilOpenBytes [0x47, 0x49, 0x46],
       PilSave \<lparr>width = 800, height = 600, pixels = []\<rparr> ''GIF''])"
    by (simp add: render_image_def try_except_apply bind_apply f o pil_save_demo l'
        to_image_content_def resize_if_needed_def truthy_def del: append.simps)
  have d: "format (Image [] ''gif'') \<noteq>
       (if lower demo_env dotless_gif = ''jpg'' then ''jpeg'' else lower demo_env dotless_gif)"
    unfolding l by (simp add: dotless_gif_def)
  have m: "CHR ''/'' \<in> set (''image/'' @ dotless_gif)"
    by simp
  show ?thesis
    using r m sp d by blast
qed

section \<open>The dispatcher\<close>

text \<open>
  C8: a path that does not exist yields the one text "Error: File not found at" and the
  path, which contains "not found"; a path that exists and is not a regular file yields the
  one text "Error: Path is not a file:" and the path, which contains "not a file"; a
  regular file whose MIME type (the guessed one, or application/octet-stream when none is
  guessed) is not an image type, application/pdf or text/html yields the one text that
  names the MIME type. In the three cases the trace is unchanged: no capability is called.
  The third case is about a guess that returned: \<open>guess\<close> is what \<^verbatim>\<open>mimetypes.guess_type\<close> gave.
\<close>

theorem get_local_file_visual_input_errors:
  "(\<not> os_path_exists env path \<longrightarrow>
      get_local_file_visual env path page_number max_dimension t =
        (Inr [Text (''Error: File not found at '' @ path)], t)
      \<and> sublist ''not found'' (''Error: File not found at '' @ path))
   \<and> (os_path_exists env path \<and> \<not> os_path_isfile env path \<longrightarrow>
      get_local_file_visual env path page_number max_dimension t =
        (Inr [Text (''Error: Path is not a file: '' @ path)], t)
      \<and> sublist ''not a file'' (''Error: Path is not a file: '' @ path))
   \<and> (os_path_exists env path \<and> os_path_isfile env path
       \<and> guess_type env path = Inr guess
       \<and> \<not> prefix ''image/'' (mime_of guess)
       \<and> mime_of guess \<noteq> ''application/pdf'' \<and> mime_of guess \<noteq> ''text/html'' \<longrightarrow>
      get_local_file_visual env path page_number max_dimension t =
        (Inr [Text (''Error: Unsupported file type '' @ [CHR 0x27] @ mime_of guess @ [CHR 0x27]
                    @ ''. Only PDF, Images, and HTML are supported for visual inspection.'')], t)
      \<and> sublist (mime_of guess)
           (''Error: Unsupported file type '' @ [CHR 0x27] @ mime_of guess @ [CHR 0x27]
            @ ''. Only PDF, Images, and HTML are supported for visual inspection.''))
   \<and> mime_of None = ''application/octet-stream''"
proof (intro conjI impI)
  assume "\<not> os_path_exists env path"
  then show "get_local_file_visual env path page_number max_dimension t =
        (Inr [Text (''Error: File not found at '' @ path)], t)"
    by (simp add: get_local_file_visual_def)
next
  have "sublist ''not found'' (''Error: File '' @ ''not found'' @ '' at '' @ path)"
    by (rule sublist_appendI)
  then show "sublist ''not found'' (''Error: File not found at '' @ path)"
    by (simp only: append.simps)
next
  assume "os_path_exists env path \<and> \<not> os_path_isfile env path"
  then show "get_local_file_visual env path page_number max_dimension t =
        (Inr [Text (''Error: Path is not a file: '' @ path)], t)"
    by (simp add: get_local_file_visual_def)
next
  have "sublist ''not a file'' (''Error: Path is '' @ ''not a file'' @ '': '' @ path)"
    by (rule sublist_appendI)
  then show "sublist ''not a file'' (''Error: Path is not a file: '' @ path)"
    by (simp only: append.simps)
next
  assume "os_path_exists env path \<and> os_path_isfile env path
       \<and> guess_type env path = Inr guess
       \<and> \<not> prefix ''image/'' (mime_of guess)
       \<and> mime_of guess \<noteq> ''application/pdf'' \<and> mime_of guess \<noteq> ''text/html''"
  then show "get_local_file_visual env path page_number max_dimension t =
        (Inr [Text (''Error: Unsupported file type '' @ [CHR 0x27] @ mime_of guess @ [CHR 0x27]
                    @ ''. Only PDF, Images, and HTML are supported for visual inspection.'')], t)"
    by (simp add: get_local_file_visual_def try_except_apply bind_apply Let_def)
next
  have "sublist (mime_of guess)
           ((''Error: Unsupported file type '' @ [CHR 0x27]) @ mime_of guess @ [CHR 0x27]
            @ ''. Only PDF, Images, and HTML are supported for visual inspection.'')"
    by (rule sublist_appendI)
  then show "sublist (mime_of guess)
           (''Error: Unsupported file type '' @ [CHR 0x27] @ mime_of guess @ [CHR 0x27]
            @ ''. Only PDF, Images, and HTML are supported for visual inspection.'')"
    by (simp only: append_assoc)
next
  show "mime_of None = ''application/octet-stream''"
    by (simp add: mime_of_def)
qed

theorem get_local_file_visual_input_errors_witness:
  "get_local_file_visual demo_env ''/data/missing.pdf'' 1 None [] =
     (Inr [Text ''Error: File not found at /data/missing.pdf''], [])
   \<and> get_local_file_visual demo_env ''/data'' 1 None [] =
     (Inr [Text ''Error: Path is not a file: /data''], [])
   \<and> get_local_file_visual demo_env ''/data/archive.zip'' 1 None [] =
     (Inr [Text (''Error: Unsupported file type '' @ [CHR 0x27] @ ''application/zip'' @ [CHR 0x27]
                 @ ''. Only PDF, Images, and HTML are supported for visual inspection.'')], [])"
proof -
  have m: "guess_type demo_env ''/data/archive.zip'' = Inr (Some ''application/zip'')"
    "mime_of (Some ''application/zip'') = ''application/zip''"
    by (simp_all add: mime_of_def demo_env_def)
  have e: "\<not> os_path_exists demo_env ''/data/missing.pdf''"
    "os_path_exists demo_env ''/data''" "\<not> os_path_isfile demo_env ''/data''"
    "os_path_exists demo_env ''/data/archive.zip''" "os_path_isfile demo_env ''/data/archive.zip''"
    by (simp_all add: demo_env_def)
  show ?thesis
    using get_local_file_visual_input_errors [of demo_env "''/data/missing.pdf''" 1 None "[]"]
      get_local_file_visual_input_errors [of demo_env "''/data''" 1 None "[]"]
      get_local_file_visual_input_errors [of demo_env "''/data/archive.zip''" 1 None "[]"
        "Some ''application/zip''"]
    by (simp add: m e)
qed

text \<open>
  The runs in which no exception leaves \<^verbatim>\<open>get_local_file_visual\<close>: the path fails a check,
  or the guess of the MIME type returns. Then the call returns a list that is one text
  beginning with "Error"; or, only for a file of an image type, one image artifact; or,
  only for a PDF or an HTML file, an image artifact followed by the status text
  "Displaying Page ...".
\<close>

lemma get_local_file_visual_returns:
  assumes "os_path_exists env path \<and> os_path_isfile env path \<longrightarrow> guess_type env path = Inr guess"
  shows "\<exists>r t'. get_local_file_visual env path page_number max_dimension t = (Inr r, t')
     \<and> r \<noteq> []
     \<and> ((\<exists>s. r = [Text (''Error'' @ s)])
        \<or> (prefix ''image/'' (mime_of guess) \<and> (\<exists>img. r = [ImageContent img]))
        \<or> ((mime_of guess = ''application/pdf'' \<or> mime_of guess = ''text/html'')
            \<and> (\<exists>img s. r = [ImageContent img, Text (''Displaying Page '' @ s)])))"
proof -
  consider (missing) "\<not> os_path_exists env path"
    | (nofile) "os_path_exists env path" "\<not> os_path_isfile env path"
    | (image) "os_path_exists env path" "os_path_isfile env path"
        "guess_type env path = Inr guess" "prefix ''image/'' (mime_of guess)"
    | (pdf) "os_path_exists env path" "os_path_isfile env path"
        "guess_type env path = Inr guess" "\<not> prefix ''image/'' (mime_of guess)" "mime_of guess = ''application/pdf''"
    | (html) "os_path_exists env path" "os_path_isfile env path"
        "guess_type env path = Inr guess" "\<not> prefix ''image/'' (mime_of guess)" "mime_of guess \<noteq> ''application/pdf''"
        "mime_of guess = ''text/html''"
    | (other) "os_path_exists env path" "os_path_isfile env path"
        "guess_type env path = Inr guess" "\<not> prefix ''image/'' (mime_of guess)" "mime_of guess \<noteq> ''application/pdf''"
        "mime_of guess \<noteq> ''text/html''"
    using assms by blast
  then show ?thesis
  proof cases
    case missing
    then show ?thesis by (simp add: get_local_file_visual_def)
  next
    case nofile
    then show ?thesis by (simp add: get_local_file_visual_def)
  next
    case image
    from render_image_shape [of env "Path path" "''image/png''" max_dimension t]
    obtain r t' where "render_image env (Path path) ''image/png'' max_dimension t = (Inr r, t')"
      "(\<exists>s. r = [Text (''Error'' @ s)]) \<or> (\<exists>img. r = [ImageContent img])"
      by blast
    then show ?thesis
      using image by (auto simp: get_local_file_visual_def try_except_apply bind_apply Let_def)
  next
    case pdf
    from render_document_page_shape [of env "Path path" page_number max_dimension t]
    obtain r t' where
      "render_document_page env (Path path) page_number max_dimension t = (Inr r, t')"
      "(\<exists>s. r = [Text (''Error'' @ s)])
        \<or> (\<exists>img s. r = [ImageContent img, Text (''Displaying Page '' @ s)])"
      by blast
    then show ?thesis
      using pdf by (auto simp: get_local_file_visual_def try_except_apply bind_apply Let_def)
  next
    case html
    have "\<exists>r t'. try_except
            (bind (invoke (OpenRead path) (open_read env path)) (\<lambda>html_content.
             bind (convert_html_to_pdf env html_content) (\<lambda>pdf_bytes.
             render_document_page env (Bytes pdf_bytes) page_number max_dimension)))
            (\<lambda>e. ret [Text (''Error rendering HTML file: '' @ str_exn e)]) t = (Inr r, t')
          \<and> ((\<exists>s. r = [Text (''Error'' @ s)])
             \<or> (\<exists>img s. r = [ImageContent img, Text (''Displaying Page '' @ s)]))"
    proof (cases "bind (invoke (OpenRead path) (open_read env path)) (\<lambda>html_content.
             bind (convert_html_to_pdf env html_content) (\<lambda>pdf_bytes. ret pdf_bytes)) t")
      case (Pair o1 t1)
      show ?thesis
      proof (cases o1)
        case (Inl e)
        then have "bind (invoke (OpenRead path) (open_read env path)) (\<lambda>html_content.
             bind (convert_html_to_pdf env html_content) (\<lambda>pdf_bytes.
             render_document_page env (Bytes pdf_bytes) page_number max_dimension)) t = (Inl e, t1)"
          using Pair by (auto simp: bind_apply split: sum.splits prod.splits)
        then show ?thesis by (simp add: try_except_apply)
      next
        case (Inr pdf_bytes)
        then have "bind (invoke (OpenRead path) (open_read env path)) (\<lambda>html_content.
             bind (convert_html_to_pdf env html_content) (\<lambda>pdf_bytes.
             render_document_page env (Bytes pdf_bytes) page_number max_dimension)) t
            = render_document_page env (Bytes pdf_bytes) page_number max_dimension t1"
          using Pair by (auto simp: bind_apply split: sum.splits prod.splits)
        moreover from render_document_page_shape [of env "Bytes pdf_bytes" page_number max_dimension t1]
        obtain r t' where
          "render_document_page env (Bytes pdf_bytes) page_number max_dimension t1 = (Inr r, t')"
          "(\<exists>s. r = [Text (''Error'' @ s)])
            \<or> (\<exists>img s. r = [ImageContent img, Text (''Displaying Page '' @ s)])"
          by blast
        ultimately show ?thesis by (auto simp: try_except_apply)
      qed
    qed
    then show ?thesis
      using html by (auto simp: get_local_file_visual_def try_except_apply [of "try_except _ _"] bind_apply Let_def)
  next
    case other
    then show ?thesis by (simp add: get_local_file_visual_def try_except_apply bind_apply Let_def)
  qed
qed


lemma get_local_file_visual_guess_raises:
  assumes "os_path_exists env path" and "os_path_isfile env path"
    and "guess_type env path = Inl e"
  shows "get_local_file_visual env path page_number max_dimension t = (Inl e, t)"
  using assms by (simp add: get_local_file_visual_def bind_apply)

text \<open>
  C1 says that no exception ever leaves \<^verbatim>\<open>get_local_file_visual\<close> and that every call
  returns a non-empty list. The code guesses the MIME type before its \<^verbatim>\<open>try\<close>: for the
  existing regular file "ab://[y/a.pdf", whose name \<^verbatim>\<open>mimetypes.guess_type\<close> rejects with
  \<^verbatim>\<open>ValueError\<close>, the call returns no list; the exception leaves it, and no capability has
  been called.
\<close>

theorem get_local_file_visual_raises:
  "os_path_exists demo_env ''ab://[y/a.pdf'' \<and> os_path_isfile demo_env ''ab://[y/a.pdf''
   \<and> get_local_file_visual demo_env ''ab://[y/a.pdf'' 1 None [] =
       (Inl (OtherError ''Invalid IPv6 URL''), [])"
proof -
  have e: "os_path_exists demo_env ''ab://[y/a.pdf''" "os_path_isfile demo_env ''ab://[y/a.pdf''"
    "guess_type demo_env ''ab://[y/a.pdf'' = Inl (OtherError ''Invalid IPv6 URL'')"
    by (simp_all add: demo_env_def)
  show ?thesis
    using e get_local_file_visual_guess_raises [OF e, of 1 None "[]"] by simp
qed

end
